theory Spec2Isabelle
  imports Main "HOL-Library.Char_ord" "HOL-Library.List_Lexorder" "HOL-Library.Multiset"
begin

section \<open>The action layer of burr (burr/core/action.py)\<close>

text \<open>
  The module defines the actions and conditions of a state-machine library. This theory
  embeds its classes as records, its instances as cells of an object store (instances are
  mutated by attribute assignment and duplicated by \<^verbatim>\<open>copy.copy\<close>), and its
  exceptions as values of a sum type.
\<close>

subsection \<open>Values and exceptions\<close>

text \<open>
  The values a State holds and an expression computes. The model covers \<^verbatim>\<open>None\<close>,
  booleans, (unbounded) integers and strings; a string is a list of characters.
\<close>

datatype pyval = VNone | VBool bool | VInt int | VStr string

text \<open>
  Every \<^verbatim>\<open>raise\<close> of the module raises \<^verbatim>\<open>ValueError\<close> with a formatted
  message; \<open>raise_site\<close> tells the places apart. The other constructors are exceptions
  raised by the interpreter itself.
\<close>

datatype raise_site =
    NameAlreadySet
  | RunBeforeUpdate
  | NotAValidAction
  | FirstParameterNotState
  | InvalidParameterKind
  | WrongReturnAnnotation

datatype py_error =
    ValueError raise_site
  | IndexError
  | TypeError
  | ZeroDivisionError
  | SyntaxError
  | UserError string

text \<open>
  What evaluating an expression does: it returns a value or it raises. \<open>Unmodelled\<close> is
  neither: it stands where an evaluation leaves the part of Python this theory covers,
  and says nothing about what Python does there.
\<close>

datatype 'a outcome = Returns 'a | Raises py_error | Unmodelled

type_synonym dict = "string \<rightharpoonup> pyval"

subsection \<open>State (burr.core.state, not part of this module)\<close>

text \<open>
  Only \<^verbatim>\<open>get\<close>, \<^verbatim>\<open>get_all\<close> and \<^verbatim>\<open>subset\<close> are used by this module. The
  class lives in another module; the three operations are written down from the
  specification.
\<close>

datatype state = State dict

text \<open>Modelled from the spec: \<^verbatim>\<open>State.get_all()\<close>, the full snapshot of the mapping.\<close>

fun State_get_all :: "state \<Rightarrow> dict" where
  "State_get_all (State m) = m"

text \<open>
  Modelled from the spec: \<^verbatim>\<open>State.get(key, default)\<close>; the module only calls it with
  the default left out, which is \<^verbatim>\<open>None\<close>.
\<close>

fun State_get :: "state \<Rightarrow> string \<Rightarrow> pyval" where
  "State_get (State m) key = (case m key of None \<Rightarrow> VNone | Some v \<Rightarrow> v)"

text \<open>
  Modelled from the spec: \<^verbatim>\<open>State.subset(*keys)\<close>, a new State limited to the given
  keys. A key the State does not hold is left out of the result (the specification's
  open question records this behaviour).
\<close>

fun State_subset :: "state \<Rightarrow> string list \<Rightarrow> state" where
  "State_subset (State m) keys = State (m |` set keys)"

subsection \<open>The object store\<close>

text \<open>
  An instance is a cell of the store; a reference is its index. \<^verbatim>\<open>copy.copy\<close> allocates
  a new cell holding the same attribute values (a shallow copy), and an attribute
  assignment overwrites one cell.
\<close>

type_synonym addr = nat

definition alloc :: "'obj list \<Rightarrow> 'obj \<Rightarrow> 'obj list \<times> addr" where
  "alloc h obj = (h @ [obj], length h)"

definition copy :: "'obj list \<Rightarrow> addr \<Rightarrow> 'obj list \<times> addr" where
  "copy h self = alloc h (h ! self)"

subsection \<open>Action\<close>

text \<open>
  \<^verbatim>\<open>Action.__init__\<close> sets \<^verbatim>\<open>self._name = None\<close>. Subclasses add attributes: they
  are extensions of the record, and \<open>with_name\<close> works on all of them.
\<close>

record Action =
  name :: "string option"

definition with_name ::
  "'a Action_scheme list \<Rightarrow> addr \<Rightarrow> string \<Rightarrow> py_error + ('a Action_scheme list \<times> addr)" where
  "with_name h self n =
     (if name (h ! self) \<noteq> None then Inl (ValueError NameAlreadySet)
      else
        let (h', new_action) = copy h self
        in Inr (h'[new_action := (h' ! new_action)\<lparr>name := Some n\<rparr>], new_action))"

subsection \<open>FunctionBasedAction\<close>

text \<open>
  A Python function as this module sees it: what \<^verbatim>\<open>inspect.signature\<close> reports of it
  (the parameters in order, each with its name, annotation and kind, and the return
  annotation) and what calling it as \<^verbatim>\<open>fn(state, **kwargs)\<close> does. The call returns a
  pair \<^verbatim>\<open>(result, new_state)\<close> or raises.
\<close>

datatype parameter_kind =
  POSITIONAL_ONLY | POSITIONAL_OR_KEYWORD | VAR_POSITIONAL | KEYWORD_ONLY | VAR_KEYWORD

datatype annotation_value = Empty | AnnState | AnnTupleDictState | AnnOther string

record parameter =
  pname :: string
  annotation :: annotation_value
  kind :: parameter_kind

record py_function =
  parameters :: "parameter list"
  return_annotation :: annotation_value
  body :: "state \<Rightarrow> dict \<Rightarrow> py_error + (dict \<times> state)"

record FunctionBasedAction = Action +
  fn :: py_function
  reads :: "string list"
  writes :: "string list"
  state_created :: "state option"
  bound_params :: dict

type_synonym store = "FunctionBasedAction list"

text \<open>
  \<^verbatim>\<open>FunctionBasedAction.__init__(fn, reads, writes, bound_params=None)\<close>: the new
  instance has no name and no cached State. The constructor has no failing path.
\<close>

definition FunctionBasedAction_init ::
  "store \<Rightarrow> py_function \<Rightarrow> string list \<Rightarrow> string list \<Rightarrow> dict option \<Rightarrow> store \<times> addr" where
  "FunctionBasedAction_init h f rs ws bp =
     alloc h \<lparr>name = None, fn = f, reads = rs, writes = ws, state_created = None,
       bound_params = (case bp of None \<Rightarrow> Map.empty | Some d \<Rightarrow> d)\<rparr>"

text \<open>
  \<^verbatim>\<open>run\<close> calls the function with the bound parameters, stores the State it returned
  in \<^verbatim>\<open>self._state_created\<close> and returns the result. When the function raises, nothing
  is stored.
\<close>

definition FunctionBasedAction_run :: "store \<Rightarrow> addr \<Rightarrow> state \<Rightarrow> py_error + (store \<times> dict)" where
  "FunctionBasedAction_run h self s =
     (case body (fn (h ! self)) s (bound_params (h ! self)) of
        Inl e \<Rightarrow> Inl e
      | Inr (result, new_state) \<Rightarrow>
          Inr (h[self := (h ! self)\<lparr>state_created := Some new_state\<rparr>], result))"

text \<open>
  \<^verbatim>\<open>update\<close> raises when \<^verbatim>\<open>self._state_created\<close> is \<^verbatim>\<open>None\<close> and returns the
  cached State limited to the declared writes otherwise. It assigns no attribute: the
  store it returns is the store it was given.
\<close>

definition FunctionBasedAction_update ::
  "store \<Rightarrow> addr \<Rightarrow> dict \<Rightarrow> state \<Rightarrow> py_error + (store \<times> state)" where
  "FunctionBasedAction_update h self result s =
     (case state_created (h ! self) of
        None \<Rightarrow> Inl (ValueError RunBeforeUpdate)
      | Some created \<Rightarrow> Inr (h, State_subset created (writes (h ! self))))"

text \<open>
  \<^verbatim>\<open>with_params(**kwargs)\<close>: a shallow copy whose bound parameters are
  \<^verbatim>\<open>{**self._bound_params, **kwargs}\<close>.
\<close>

definition with_params :: "store \<Rightarrow> addr \<Rightarrow> dict \<Rightarrow> store \<times> addr" where
  "with_params h self kwargs =
     (let (h', new_action) = copy h self
      in (h'[new_action := (h' ! new_action)\<lparr>bound_params := bound_params (h ! self) ++ kwargs\<rparr>],
          new_action))"

text \<open>
  \<^verbatim>\<open>_validate_action_function(fn)\<close>. \<^verbatim>\<open>list(params.keys())[0]\<close> raises
  \<^verbatim>\<open>IndexError\<close> on a function without parameters. The loop over the other parameters
  stops at the first one of a kind that cannot be passed by keyword.
\<close>

fun check_other_params :: "parameter list \<Rightarrow> py_error + unit" where
  "check_other_params [] = Inr ()"
| "check_other_params (param # other_params) =
     (if kind param \<notin> {POSITIONAL_OR_KEYWORD, KEYWORD_ONLY}
      then Inl (ValueError InvalidParameterKind)
      else check_other_params other_params)"

definition validate_action_function :: "py_function \<Rightarrow> py_error + unit" where
  "validate_action_function f =
     (case parameters f of
        [] \<Rightarrow> Inl IndexError
      | first # other_params \<Rightarrow>
          if pname first \<noteq> ''state'' \<or> \<not> annotation first = AnnState
          then Inl (ValueError FirstParameterNotState)
          else (case check_other_params other_params of
                  Inl e \<Rightarrow> Inl e
                | Inr _ \<Rightarrow>
                    if return_annotation f \<noteq> AnnTupleDictState
                    then Inl (ValueError WrongReturnAnnotation)
                    else Inr ()))"

subsection \<open>Sequences of calls\<close>

text \<open>
  What a program does with function-based actions, one call after the other, from a start
  without instances. A program holds references to allocated instances only: a call on
  another address does nothing here. A call that raises leaves the store as it was.
\<close>

datatype command =
    Construct py_function "string list" "string list" "dict option"
  | Run addr state
  | Update addr dict state
  | WithName addr string
  | WithParams addr dict

fun perform :: "store \<Rightarrow> command \<Rightarrow> store" where
  "perform h (Construct f rs ws bp) = fst (FunctionBasedAction_init h f rs ws bp)"
| "perform h (Run a s) =
     (if a < length h
      then (case FunctionBasedAction_run h a s of Inl e \<Rightarrow> h | Inr (h', result) \<Rightarrow> h')
      else h)"
| "perform h (Update a result s) =
     (if a < length h
      then (case FunctionBasedAction_update h a result s of Inl e \<Rightarrow> h | Inr (h', st) \<Rightarrow> h')
      else h)"
| "perform h (WithName a n) =
     (if a < length h
      then (case with_name h a n of Inl e \<Rightarrow> h | Inr (h', b) \<Rightarrow> h')
      else h)"
| "perform h (WithParams a kwargs) =
     (if a < length h then fst (with_params h a kwargs) else h)"

text \<open>
  The instances that hold a produced State by the history of the calls: an instance
  enters the set when a \<open>run\<close> on it returns, and when \<open>with_name\<close> or \<open>with_params\<close>
  makes it as the copy of an instance that is in the set. Nothing else enters the set,
  and nothing leaves it. The first argument is the store before the call.
\<close>

fun holders :: "store \<Rightarrow> addr set \<Rightarrow> command \<Rightarrow> addr set" where
  "holders h C (Construct f rs ws bp) = C"
| "holders h C (Run a s) =
     (if a < length h
      then (case FunctionBasedAction_run h a s of Inl e \<Rightarrow> C | Inr r \<Rightarrow> insert a C)
      else C)"
| "holders h C (Update a result s) = C"
| "holders h C (WithName a n) =
     (if a < length h
      then (case with_name h a n of
              Inl e \<Rightarrow> C
            | Inr (h', b) \<Rightarrow> if a \<in> C then insert b C else C)
      else C)"
| "holders h C (WithParams a kwargs) =
     (if a < length h
      then (case with_params h a kwargs of (h', b) \<Rightarrow> if a \<in> C then insert b C else C)
      else C)"

definition step :: "store \<times> addr set \<Rightarrow> command \<Rightarrow> store \<times> addr set" where
  "step hc c = (perform (fst hc) c, holders (fst hc) (snd hc) c)"

definition history :: "command list \<Rightarrow> store \<times> addr set" where
  "history cs = foldl step ([], {}) cs"

text \<open>
  The invariant of a history \<open>(h, C)\<close>: the instances of the store whose
  \<^verbatim>\<open>_state_created\<close> holds a State are those of \<open>C\<close>, and \<open>C\<close> holds allocated
  instances only.
\<close>

definition cache_inv :: "store \<times> addr set \<Rightarrow> bool" where
  "cache_inv hc \<longleftrightarrow>
     (\<forall>a < length (fst hc). (state_created (fst hc ! a) \<noteq> None) = (a \<in> snd hc))
     \<and> (\<forall>a \<in> snd hc. a < length (fst hc))"

subsection \<open>Python's \<^verbatim>\<open>==\<close> and \<^verbatim>\<open>str\<close> on the modelled values\<close>

text \<open>
  \<^verbatim>\<open>bool\<close> is a subclass of \<^verbatim>\<open>int\<close>: \<^verbatim>\<open>True == 1\<close>. Values of different kinds
  are unequal, and \<^verbatim>\<open>!=\<close> is the negation of \<^verbatim>\<open>==\<close> on these types.
\<close>

fun as_int :: "pyval \<Rightarrow> int option" where
  "as_int (VBool b) = Some (if b then 1 else 0)"
| "as_int (VInt i) = Some i"
| "as_int _ = None"

fun py_eq :: "pyval \<Rightarrow> pyval \<Rightarrow> bool" where
  "py_eq VNone VNone = True"
| "py_eq (VStr a) (VStr b) = (a = b)"
| "py_eq a b = (case (as_int a, as_int b) of (Some i, Some j) \<Rightarrow> i = j | _ \<Rightarrow> False)"

definition py_ne :: "pyval \<Rightarrow> pyval \<Rightarrow> bool" where
  "py_ne a b = (\<not> py_eq a b)"

text \<open>Decimal digits of an integer, as \<^verbatim>\<open>str\<close> prints it.\<close>

function str_nat :: "nat \<Rightarrow> string" where
  "str_nat n = (if n < 10 then [''0123456789'' ! n] else str_nat (n div 10) @ [''0123456789'' ! (n mod 10)])"
  by pat_completeness auto
termination
  by (relation "measure (\<lambda>n. n)") auto

declare str_nat.simps [simp del]

definition str_int :: "int \<Rightarrow> string" where
  "str_int i = (if i < 0 then ''-'' @ str_nat (nat (- i)) else str_nat (nat i))"

text \<open>What an f-string puts for \<^verbatim>\<open>{value}\<close>: \<^verbatim>\<open>str(value)\<close>.\<close>

fun py_str :: "pyval \<Rightarrow> string" where
  "py_str VNone = ''None''"
| "py_str (VBool b) = (if b then ''True'' else ''False'')"
| "py_str (VInt i) = str_int i"
| "py_str (VStr s) = s"

text \<open>\<^verbatim>\<open>sep.join(xs)\<close>.\<close>

fun join :: "string \<Rightarrow> string list \<Rightarrow> string" where
  "join sep [] = []"
| "join sep [x] = x"
| "join sep (x # y # ys) = x @ sep @ join sep (y # ys)"

subsection \<open>Condition\<close>

text \<open>
  \<^verbatim>\<open>Condition.__init__(keys, resolver, name=None)\<close> stores its three arguments. The
  resolver is any callable on a State: the one \<^verbatim>\<open>when\<close> builds returns a boolean, the
  one \<^verbatim>\<open>expr\<close> builds returns whatever the expression evaluates to, or raises.
\<close>

record Condition =
  resolver :: "state \<Rightarrow> pyval outcome"
  keys :: "string list"
  cname :: "string option"

definition KEY :: string where
  "KEY = ''PROCEED''"

definition Condition_run :: "Condition \<Rightarrow> state \<Rightarrow> dict outcome" where
  "Condition_run self s =
     (case resolver self s of
        Returns v \<Rightarrow> Returns [KEY \<mapsto> v]
      | Raises e \<Rightarrow> Raises e
      | Unmodelled \<Rightarrow> Unmodelled)"

definition Condition_reads :: "Condition \<Rightarrow> string list" where
  "Condition_reads self = keys self"

text \<open>
  \<^verbatim>\<open>Condition.when(**kwargs)\<close>. The keyword arguments are a dict: its items in
  insertion order, with distinct keys. The loop of \<^verbatim>\<open>condition_func\<close> returns
  \<^verbatim>\<open>False\<close> at the first pair whose value differs from \<^verbatim>\<open>state.get(key)\<close>.
  \<^verbatim>\<open>sorted(kwargs.items())\<close> orders the pairs; the keys being distinct and strings,
  the order of the pairs is the order of their keys.
\<close>

fun when_condition_func :: "(string \<times> pyval) list \<Rightarrow> state \<Rightarrow> bool" where
  "when_condition_func [] s = True"
| "when_condition_func ((key, value) # kwargs) s =
     (if py_ne (State_get s key) value then False else when_condition_func kwargs s)"

definition when_name :: "(string \<times> pyval) list \<Rightarrow> string" where
  "when_name kwargs =
     join '', '' (map (\<lambda>(key, value). key @ ''='' @ py_str value) (sort_key fst kwargs))"

definition Condition_when :: "(string \<times> pyval) list \<Rightarrow> Condition" where
  "Condition_when kwargs =
     \<lparr>resolver = (\<lambda>s. Returns (VBool (when_condition_func kwargs s))),
      keys = map fst kwargs,
      cname = Some (when_name kwargs)\<rparr>"

subsection \<open>Expression trees\<close>

text \<open>
  The trees \<^verbatim>\<open>ast.parse(text, mode="eval")\<close> builds, for the node classes this theory
  covers. \<open>Compare\<close> pairs each operator with its comparand (\<^verbatim>\<open>ops\<close> and
  \<^verbatim>\<open>comparators\<close> have the same length); \<open>Call\<close> has positional arguments only;
  \<open>Lambda\<close> has plain parameters without defaults; a comprehension (\<open>ListComp\<close>,
  \<open>SetComp\<close>, \<open>DictComp\<close>, \<open>GeneratorExp\<close>) has one generator,
  \<^verbatim>\<open>for target in iter if c1 if c2\<close>, whose target is a name; \<open>NamedExpr\<close> is the
  assignment expression \<^verbatim>\<open>(target := value)\<close>, whose target is a name.
\<close>

datatype boolop = And | Or

datatype unaryop = Not_op | USub

datatype operator = Add | Sub | Mult | Div | FloorDiv | Mod

datatype cmpop = Eq | NotEq | Lt | LtE | Gt | GtE | Is | IsNot | In | NotIn

datatype expr =
    Name string
  | Constant pyval
  | BoolOp boolop "expr list"
  | NamedExpr string expr
  | UnaryOp unaryop expr
  | BinOp expr operator expr
  | Compare expr "(cmpop \<times> expr) list"
  | IfExp expr expr expr
  | Call expr "expr list"
  | Attribute expr string
  | Subscript expr expr
  | Lambda "string list" expr
  | ListComp expr string expr "expr list"
  | SetComp expr string expr "expr list"
  | DictComp expr expr string expr "expr list"
  | GeneratorExp expr string expr "expr list"

subsection \<open>The name visitor of \<^verbatim>\<open>Condition.expr\<close>\<close>

text \<open>
  \<^verbatim>\<open>NameVisitor\<close> overrides \<^verbatim>\<open>visit_Name\<close> to add the identifier to the set
  \<^verbatim>\<open>self.names\<close>; every other node gets \<^verbatim>\<open>generic_visit\<close>, which visits the child
  nodes field by field. The set is threaded through the traversal as a list without
  duplicates. The parameters of a lambda are \<^verbatim>\<open>arg\<close> nodes, not \<^verbatim>\<open>Name\<close> nodes;
  the target of a comprehension and the target of an assignment expression are
  \<^verbatim>\<open>Name\<close> nodes.
\<close>

fun visit :: "expr \<Rightarrow> string list \<Rightarrow> string list" where
  "visit (Name ident) names = List.insert ident names"
| "visit (Constant v) names = names"
| "visit (BoolOp op vals) names = fold visit vals names"
| "visit (NamedExpr target val) names = visit val (List.insert target names)"
| "visit (UnaryOp op operand) names = visit operand names"
| "visit (BinOp left op right) names = visit right (visit left names)"
| "visit (Compare left rest) names = fold visit (map snd rest) (visit left names)"
| "visit (IfExp test bdy orelse) names = visit orelse (visit bdy (visit test names))"
| "visit (Call func args) names = fold visit args (visit func names)"
| "visit (Attribute val attr) names = visit val names"
| "visit (Subscript val slice) names = visit slice (visit val names)"
| "visit (Lambda params bdy) names = visit bdy names"
| "visit (ListComp elt target iter ifs) names =
     fold visit ifs (visit iter (List.insert target (visit elt names)))"
| "visit (SetComp elt target iter ifs) names =
     fold visit ifs (visit iter (List.insert target (visit elt names)))"
| "visit (DictComp key val target iter ifs) names =
     fold visit ifs (visit iter (List.insert target (visit val (visit key names))))"
| "visit (GeneratorExp elt target iter ifs) names =
     fold visit ifs (visit iter (List.insert target (visit elt names)))"

subsection \<open>Evaluation of a tree\<close>

text \<open>
  \<^verbatim>\<open>eval(compile(tree, "<string>", "eval"), {}, state.get_all())\<close> is Python's own
  evaluator. \<open>py_eval\<close>, defined below through \<open>eval_expr\<close>, is that evaluator on a
  fragment of the language: names bound in
  the State, constants, boolean operators (which return one of their operands),
  \<^verbatim>\<open>not\<close> and unary minus, integer and string arithmetic, chained comparisons,
  conditional expressions and indexing of strings, on the values of \<open>pyval\<close>. There its
  outcome is \<open>Returns\<close> or \<open>Raises\<close>, as Python's. Everywhere else it is \<open>Unmodelled\<close>:
  for a name the State does not bind (Python looks among the builtins, then raises
  \<^verbatim>\<open>NameError\<close>), for true division (a float), for identity and membership tests,
  and for calls, attribute access, lambdas, comprehensions and assignment expressions,
  all of which Python evaluates. Every statement below about an evaluation is about an
  outcome \<open>Returns\<close> or \<open>Raises\<close>.
\<close>

fun truthy :: "pyval \<Rightarrow> bool" where
  "truthy VNone = False"
| "truthy (VBool b) = b"
| "truthy (VInt i) = (i \<noteq> 0)"
| "truthy (VStr s) = (s \<noteq> [])"

fun unary :: "unaryop \<Rightarrow> pyval \<Rightarrow> pyval outcome" where
  "unary Not_op v = Returns (VBool (\<not> truthy v))"
| "unary USub v = (case as_int v of Some i \<Rightarrow> Returns (VInt (- i)) | None \<Rightarrow> Raises TypeError)"

definition repeat_str :: "string \<Rightarrow> int \<Rightarrow> string" where
  "repeat_str s n = concat (replicate (nat n) s)"

fun binop :: "operator \<Rightarrow> pyval \<Rightarrow> pyval \<Rightarrow> pyval outcome" where
  "binop Add (VStr a) (VStr b) = Returns (VStr (a @ b))"
| "binop Add a b =
     (case (as_int a, as_int b) of
        (Some i, Some j) \<Rightarrow> Returns (VInt (i + j))
      | _ \<Rightarrow> Raises TypeError)"
| "binop Sub a b =
     (case (as_int a, as_int b) of
        (Some i, Some j) \<Rightarrow> Returns (VInt (i - j))
      | _ \<Rightarrow> Raises TypeError)"
| "binop Mult (VStr a) b =
     (case as_int b of Some n \<Rightarrow> Returns (VStr (repeat_str a n)) | None \<Rightarrow> Raises TypeError)"
| "binop Mult a (VStr b) =
     (case as_int a of Some n \<Rightarrow> Returns (VStr (repeat_str b n)) | None \<Rightarrow> Raises TypeError)"
| "binop Mult a b =
     (case (as_int a, as_int b) of
        (Some i, Some j) \<Rightarrow> Returns (VInt (i * j))
      | _ \<Rightarrow> Raises TypeError)"
| "binop Div a b =
     (case (as_int a, as_int b) of
        (Some i, Some j) \<Rightarrow> if j = 0 then Raises ZeroDivisionError else Unmodelled
      | _ \<Rightarrow> Raises TypeError)"
| "binop FloorDiv a b =
     (case (as_int a, as_int b) of
        (Some i, Some j) \<Rightarrow> if j = 0 then Raises ZeroDivisionError else Returns (VInt (i div j))
      | _ \<Rightarrow> Raises TypeError)"
| "binop Mod (VStr a) b = Unmodelled"
| "binop Mod a b =
     (case (as_int a, as_int b) of
        (Some i, Some j) \<Rightarrow> if j = 0 then Raises ZeroDivisionError else Returns (VInt (i mod j))
      | _ \<Rightarrow> Raises TypeError)"

fun ordered :: "cmpop \<Rightarrow> 'a::linorder \<Rightarrow> 'a \<Rightarrow> bool" where
  "ordered Lt a b = (a < b)"
| "ordered LtE a b = (a \<le> b)"
| "ordered Gt a b = (b < a)"
| "ordered GtE a b = (b \<le> a)"
| "ordered _ a b = False"

fun compare :: "cmpop \<Rightarrow> pyval \<Rightarrow> pyval \<Rightarrow> pyval outcome" where
  "compare Eq a b = Returns (VBool (py_eq a b))"
| "compare NotEq a b = Returns (VBool (py_ne a b))"
| "compare Is a b = Unmodelled"
| "compare IsNot a b = Unmodelled"
| "compare In a b = Unmodelled"
| "compare NotIn a b = Unmodelled"
| "compare op (VStr a) (VStr b) = Returns (VBool (ordered op a b))"
| "compare op a b =
     (case (as_int a, as_int b) of
        (Some i, Some j) \<Rightarrow> Returns (VBool (ordered op i j))
      | _ \<Rightarrow> Raises TypeError)"

fun subscript :: "pyval \<Rightarrow> pyval \<Rightarrow> pyval outcome" where
  "subscript (VStr s) i =
     (case as_int i of
        None \<Rightarrow> Raises TypeError
      | Some n \<Rightarrow>
          let len = int (length s); j = (if n < 0 then len + n else n)
          in if 0 \<le> j \<and> j < len then Returns (VStr [s ! nat j]) else Raises IndexError)"
| "subscript v i = Raises TypeError"

fun eval_expr :: "expr \<Rightarrow> dict \<Rightarrow> pyval outcome"
  and eval_boolop :: "boolop \<Rightarrow> expr list \<Rightarrow> dict \<Rightarrow> pyval outcome"
  and eval_compare :: "pyval \<Rightarrow> (cmpop \<times> expr) list \<Rightarrow> dict \<Rightarrow> pyval outcome" where
  "eval_expr (Name ident) env = (case env ident of Some v \<Rightarrow> Returns v | None \<Rightarrow> Unmodelled)"
| "eval_expr (Constant v) env = Returns v"
| "eval_expr (BoolOp op vals) env = eval_boolop op vals env"
| "eval_expr (UnaryOp op operand) env =
     (case eval_expr operand env of
        Returns v \<Rightarrow> unary op v
      | Raises e \<Rightarrow> Raises e
      | Unmodelled \<Rightarrow> Unmodelled)"
| "eval_expr (BinOp left op right) env =
     (case eval_expr left env of
        Returns a \<Rightarrow>
          (case eval_expr right env of
             Returns b \<Rightarrow> binop op a b
           | Raises e \<Rightarrow> Raises e
           | Unmodelled \<Rightarrow> Unmodelled)
      | Raises e \<Rightarrow> Raises e
      | Unmodelled \<Rightarrow> Unmodelled)"
| "eval_expr (Compare left rest) env =
     (case eval_expr left env of
        Returns v \<Rightarrow> eval_compare v rest env
      | Raises e \<Rightarrow> Raises e
      | Unmodelled \<Rightarrow> Unmodelled)"
| "eval_expr (IfExp test bdy orelse) env =
     (case eval_expr test env of
        Returns v \<Rightarrow> if truthy v then eval_expr bdy env else eval_expr orelse env
      | Raises e \<Rightarrow> Raises e
      | Unmodelled \<Rightarrow> Unmodelled)"
| "eval_expr (Subscript val slice) env =
     (case eval_expr val env of
        Returns v \<Rightarrow>
          (case eval_expr slice env of
             Returns i \<Rightarrow> subscript v i
           | Raises e \<Rightarrow> Raises e
           | Unmodelled \<Rightarrow> Unmodelled)
      | Raises e \<Rightarrow> Raises e
      | Unmodelled \<Rightarrow> Unmodelled)"
| "eval_expr (NamedExpr target val) env = Unmodelled"
| "eval_expr (Call func args) env = Unmodelled"
| "eval_expr (Attribute val attr) env = Unmodelled"
| "eval_expr (Lambda params bdy) env = Unmodelled"
| "eval_expr (ListComp elt target iter ifs) env = Unmodelled"
| "eval_expr (SetComp elt target iter ifs) env = Unmodelled"
| "eval_expr (DictComp key val target iter ifs) env = Unmodelled"
| "eval_expr (GeneratorExp elt target iter ifs) env = Unmodelled"
| "eval_boolop op [] env = Unmodelled"
| "eval_boolop op [e] env = eval_expr e env"
| "eval_boolop op (e # e' # es) env =
     (case eval_expr e env of
        Returns v \<Rightarrow>
          if (op = And \<and> \<not> truthy v) \<or> (op = Or \<and> truthy v) then Returns v
          else eval_boolop op (e' # es) env
      | Raises x \<Rightarrow> Raises x
      | Unmodelled \<Rightarrow> Unmodelled)"
| "eval_compare v [] env = Unmodelled"
| "eval_compare v [(op, e)] env =
     (case eval_expr e env of
        Returns w \<Rightarrow> compare op v w
      | Raises x \<Rightarrow> Raises x
      | Unmodelled \<Rightarrow> Unmodelled)"
| "eval_compare v ((op, e) # r # rest) env =
     (case eval_expr e env of
        Returns w \<Rightarrow>
          (case compare op v w of
             Returns res \<Rightarrow> if truthy res then eval_compare w (r # rest) env else Returns res
           | Raises x \<Rightarrow> Raises x
           | Unmodelled \<Rightarrow> Unmodelled)
      | Raises x \<Rightarrow> Raises x
      | Unmodelled \<Rightarrow> Unmodelled)"

text \<open>
  \<^verbatim>\<open>compile\<close> goes through the whole tree before anything is evaluated, and can
  itself raise on a tree that parses. A tree that holds a node outside the fragment
  anywhere, also where the evaluation would not come, is \<open>Unmodelled\<close> as a whole. The
  parser gives a boolean operator at least two operands and a comparison at least one
  comparand.
\<close>

fun modelled :: "expr \<Rightarrow> bool" where
  "modelled (Name ident) = True"
| "modelled (Constant v) = True"
| "modelled (BoolOp op vals) = (2 \<le> length vals \<and> list_all modelled vals)"
| "modelled (UnaryOp op operand) = modelled operand"
| "modelled (BinOp left op right) = (modelled left \<and> modelled right)"
| "modelled (Compare left rest) =
     (rest \<noteq> [] \<and> modelled left \<and> list_all modelled (map snd rest))"
| "modelled (IfExp test bdy orelse) = (modelled test \<and> modelled bdy \<and> modelled orelse)"
| "modelled (Subscript val slice) = (modelled val \<and> modelled slice)"
| "modelled _ = False"

definition py_eval :: "expr \<Rightarrow> dict \<Rightarrow> pyval outcome" where
  "py_eval tree env = (if modelled tree then eval_expr tree env else Unmodelled)"

text \<open>
  \<^verbatim>\<open>Condition.expr(expr)\<close>. The second argument is what \<^verbatim>\<open>ast.parse(expr, mode="eval")\<close>
  did with the text: it raised (a text that is not one expression, such as an assignment
  statement, is a \<^verbatim>\<open>SyntaxError\<close>), or it returned the tree. Nothing else in the
  function can raise: the names are collected, and the tree is kept for the resolver. No
  line of the function looks at the kind of a node.
\<close>

definition Condition_expr :: "string \<Rightarrow> py_error + expr \<Rightarrow> py_error + Condition" where
  "Condition_expr text parsed =
     (case parsed of
        Inl e \<Rightarrow> Inl e
      | Inr tree \<Rightarrow>
          Inr \<lparr>resolver = (\<lambda>s. py_eval tree (State_get_all s)),
               keys = visit tree [],
               cname = Some text\<rparr>)"

subsection \<open>The factory and the decorator\<close>

text \<open>
  What \<open>create_action\<close> can be given: a function object, with the value of its
  \<^verbatim>\<open>action_function\<close> attribute when it has one; an instance of \<^verbatim>\<open>Action\<close>; any
  other object. \<^verbatim>\<open>hasattr(action_, "action_function")\<close> is asked first, then
  \<^verbatim>\<open>isinstance(action_, Action)\<close>; \<open>the_action\<close> is the instance when the object is one.
\<close>

datatype py_object = FunctionObj py_function "addr option" | ActionObj addr | OtherObj

fun action_function :: "py_object \<Rightarrow> addr option" where
  "action_function (FunctionObj f attr) = attr"
| "action_function _ = None"

fun the_action :: "py_object \<Rightarrow> addr option" where
  "the_action (ActionObj a) = Some a"
| "the_action _ = None"

definition create_action ::
  "'a Action_scheme list \<Rightarrow> py_object \<Rightarrow> string \<Rightarrow> py_error + ('a Action_scheme list \<times> addr)" where
  "create_action h obj n =
     (case action_function obj of
        Some attached \<Rightarrow> with_name h attached n
      | None \<Rightarrow>
          (case the_action obj of
             None \<Rightarrow> Inl (ValueError NotAValidAction)
           | Some a \<Rightarrow> with_name h a n))"

text \<open>
  The decorator \<^verbatim>\<open>@action(reads, writes)\<close> constructs a FunctionBasedAction around the
  function and sets it as the function's \<^verbatim>\<open>action_function\<close> attribute.
\<close>

definition action :: "store \<Rightarrow> string list \<Rightarrow> string list \<Rightarrow> py_function \<Rightarrow> store \<times> py_object" where
  "action h rs ws f =
     (let (h', attached) = FunctionBasedAction_init h f rs ws None
      in (h', FunctionObj f (Some attached)))"

subsection \<open>The specification's notions for expressions\<close>

text \<open>The identifiers of the \<^verbatim>\<open>Name\<close> nodes that occur anywhere in a tree.\<close>

fun name_nodes :: "expr \<Rightarrow> string set" where
  "name_nodes (Name ident) = {ident}"
| "name_nodes (Constant v) = {}"
| "name_nodes (BoolOp op vals) = (\<Union>e \<in> set vals. name_nodes e)"
| "name_nodes (NamedExpr target val) = {target} \<union> name_nodes val"
| "name_nodes (UnaryOp op operand) = name_nodes operand"
| "name_nodes (BinOp left op right) = name_nodes left \<union> name_nodes right"
| "name_nodes (Compare left rest) = name_nodes left \<union> (\<Union>e \<in> snd ` set rest. name_nodes e)"
| "name_nodes (IfExp test bdy orelse) = name_nodes test \<union> name_nodes bdy \<union> name_nodes orelse"
| "name_nodes (Call func args) = name_nodes func \<union> (\<Union>e \<in> set args. name_nodes e)"
| "name_nodes (Attribute val attr) = name_nodes val"
| "name_nodes (Subscript val slice) = name_nodes val \<union> name_nodes slice"
| "name_nodes (Lambda params bdy) = name_nodes bdy"
| "name_nodes (ListComp elt target iter ifs) =
     name_nodes elt \<union> {target} \<union> name_nodes iter \<union> (\<Union>e \<in> set ifs. name_nodes e)"
| "name_nodes (SetComp elt target iter ifs) =
     name_nodes elt \<union> {target} \<union> name_nodes iter \<union> (\<Union>e \<in> set ifs. name_nodes e)"
| "name_nodes (DictComp key val target iter ifs) =
     name_nodes key \<union> name_nodes val \<union> {target} \<union> name_nodes iter
       \<union> (\<Union>e \<in> set ifs. name_nodes e)"
| "name_nodes (GeneratorExp elt target iter ifs) =
     name_nodes elt \<union> {target} \<union> name_nodes iter \<union> (\<Union>e \<in> set ifs. name_nodes e)"

text \<open>
  Free identifiers, following the specification's words: the identifiers an expression
  reads that nothing inside the expression binds. A lambda binds its parameters in its
  body; a comprehension binds its target in its element and conditions, not in its
  iterable; an assignment expression writes its target and reads only its value.
\<close>

fun free_identifiers :: "expr \<Rightarrow> string set" where
  "free_identifiers (Name ident) = {ident}"
| "free_identifiers (Constant v) = {}"
| "free_identifiers (BoolOp op vals) = (\<Union>e \<in> set vals. free_identifiers e)"
| "free_identifiers (NamedExpr target val) = free_identifiers val"
| "free_identifiers (UnaryOp op operand) = free_identifiers operand"
| "free_identifiers (BinOp left op right) = free_identifiers left \<union> free_identifiers right"
| "free_identifiers (Compare left rest) =
     free_identifiers left \<union> (\<Union>e \<in> snd ` set rest. free_identifiers e)"
| "free_identifiers (IfExp test bdy orelse) =
     free_identifiers test \<union> free_identifiers bdy \<union> free_identifiers orelse"
| "free_identifiers (Call func args) =
     free_identifiers func \<union> (\<Union>e \<in> set args. free_identifiers e)"
| "free_identifiers (Attribute val attr) = free_identifiers val"
| "free_identifiers (Subscript val slice) = free_identifiers val \<union> free_identifiers slice"
| "free_identifiers (Lambda params bdy) = free_identifiers bdy - set params"
| "free_identifiers (ListComp elt target iter ifs) =
     free_identifiers iter
       \<union> ((free_identifiers elt \<union> (\<Union>e \<in> set ifs. free_identifiers e)) - {target})"
| "free_identifiers (SetComp elt target iter ifs) =
     free_identifiers iter
       \<union> ((free_identifiers elt \<union> (\<Union>e \<in> set ifs. free_identifiers e)) - {target})"
| "free_identifiers (DictComp key val target iter ifs) =
     free_identifiers iter
       \<union> ((free_identifiers key \<union> free_identifiers val
            \<union> (\<Union>e \<in> set ifs. free_identifiers e)) - {target})"
| "free_identifiers (GeneratorExp elt target iter ifs) =
     free_identifiers iter
       \<union> ((free_identifiers elt \<union> (\<Union>e \<in> set ifs. free_identifiers e)) - {target})"

text \<open>
  The grammar the specification accepts: identifiers, literals, the comparisons
  \<^verbatim>\<open>== != < > <= >=\<close>, \<^verbatim>\<open>and\<close>, \<^verbatim>\<open>or\<close>, \<^verbatim>\<open>not\<close> and the arithmetic
  \<^verbatim>\<open>+ - * /\<close>. Every other node kind is to be rejected.
\<close>

fun sandboxed :: "expr \<Rightarrow> bool" where
  "sandboxed (Name ident) = True"
| "sandboxed (Constant v) = True"
| "sandboxed (BoolOp op vals) = list_all sandboxed vals"
| "sandboxed (UnaryOp op operand) = sandboxed operand"
| "sandboxed (BinOp left op right) =
     (op \<in> {Add, Sub, Mult, Div} \<and> sandboxed left \<and> sandboxed right)"
| "sandboxed (Compare left rest) =
     (sandboxed left \<and> list_all (\<lambda>(op, e). op \<in> {Eq, NotEq, Lt, Gt, LtE, GtE} \<and> sandboxed e) rest)"
| "sandboxed _ = False"

subsection \<open>Inputs used in the examples\<close>

definition produced :: state where
  "produced = State [''x'' \<mapsto> VInt 1, ''y'' \<mapsto> VInt 2]"

text \<open>
  \<^verbatim>\<open>def produce(state: State) -> Tuple[dict, State]\<close>, returning an empty result and
  a State with the keys \<^verbatim>\<open>x\<close> and \<^verbatim>\<open>y\<close>.
\<close>

definition produce :: py_function where
  "produce =
     \<lparr>parameters = [\<lparr>pname = ''state'', annotation = AnnState, kind = POSITIONAL_OR_KEYWORD\<rparr>],
      return_annotation = AnnTupleDictState,
      body = (\<lambda>s kwargs. Inr (Map.empty, produced))\<rparr>"

text \<open>
  \<^verbatim>\<open>def variadic(state: State, *args) -> Tuple[dict, State]\<close>: its second parameter
  cannot be passed by keyword.
\<close>

definition variadic :: py_function where
  "variadic =
     \<lparr>parameters = [\<lparr>pname = ''state'', annotation = AnnState, kind = POSITIONAL_OR_KEYWORD\<rparr>,
                    \<lparr>pname = ''args'', annotation = Empty, kind = VAR_POSITIONAL\<rparr>],
      return_annotation = AnnTupleDictState,
      body = (\<lambda>s kwargs. Inr (Map.empty, s))\<rparr>"

definition fresh_action :: "py_function \<Rightarrow> string list \<Rightarrow> FunctionBasedAction" where
  "fresh_action f ws =
     \<lparr>name = None, fn = f, reads = [], writes = ws, state_created = None,
      bound_params = Map.empty\<rparr>"


text \<open>The tree of \<^verbatim>\<open>[x for x in xs]\<close>.\<close>

definition comprehension_tree :: expr where
  "comprehension_tree = ListComp (Name ''x'') ''x'' (Name ''xs'') []"

text \<open>The tree of \<^verbatim>\<open>a == b and c > 3\<close>.\<close>

definition conjunction_tree :: expr where
  "conjunction_tree =
     BoolOp And [Compare (Name ''a'') [(Eq, Name ''b'')],
                 Compare (Name ''c'') [(Gt, Constant (VInt 3))]]"

text \<open>The tree of \<^verbatim>\<open>(y := a) == 1\<close>.\<close>

definition assignment_tree :: expr where
  "assignment_tree = Compare (NamedExpr ''y'' (Name ''a'')) [(Eq, Constant (VInt 1))]"

section \<open>Properties\<close>

subsection \<open>Naming an action\<close>

lemma with_name_named:
  "name (h ! a) \<noteq> None \<Longrightarrow> with_name h a n = Inl (ValueError NameAlreadySet)"
  by (simp add: with_name_def)

lemma with_name_unnamed:
  "name (h ! a) = None \<Longrightarrow>
     with_name h a n = Inr (h @ [(h ! a)\<lparr>name := Some n\<rparr>], length h)"
  by (simp add: with_name_def copy_def alloc_def)

text \<open>
  C4. \<open>with_name\<close> raises (the \<^verbatim>\<open>ValueError\<close> for a name already set) exactly when the
  instance has a name. On an unnamed instance it returns a reference to a new instance,
  whose name is the given one and whose other attributes are those of the original; every
  instance that existed before, the original among them, is unchanged, so the original is
  still unnamed.
\<close>

theorem with_name_once:
  assumes "a < length h"
  shows "((\<exists>e. with_name h a n = Inl e) \<longleftrightarrow> name (h ! a) \<noteq> None)
    \<and> (name (h ! a) \<noteq> None \<longrightarrow> with_name h a n = Inl (ValueError NameAlreadySet))
    \<and> (name (h ! a) = None \<longrightarrow>
         (\<exists>h' b. with_name h a n = Inr (h', b)
            \<and> b \<noteq> a \<and> b < length h'
            \<and> name (h' ! b) = Some n
            \<and> Action.more (h' ! b) = Action.more (h ! a)
            \<and> (\<forall>c < length h. h' ! c = h ! c)
            \<and> name (h' ! a) = None))"
proof (cases "name (h ! a)")
  case None
  have "with_name h a n = Inr (h @ [(h ! a)\<lparr>name := Some n\<rparr>], length h)"
    using None by (rule with_name_unnamed)
  with None assms show ?thesis
    by (simp add: nth_append)
next
  case (Some m)
  then show ?thesis
    by (simp add: with_name_named)
qed

theorem with_name_once_witness:
  "(0::nat) < length [\<lparr>name = None\<rparr>]
   \<and> (\<exists>h' b. with_name [\<lparr>name = None\<rparr>] 0 ''step'' = Inr (h', b)
         \<and> b \<noteq> 0 \<and> name (h' ! b) = Some ''step'' \<and> name (h' ! 0) = None)
   \<and> with_name [\<lparr>name = Some ''old''\<rparr>] 0 ''step'' = Inl (ValueError NameAlreadySet)"
  using with_name_once [of 0 "[\<lparr>name = None\<rparr>]" "''step''"]
    with_name_once [of 0 "[\<lparr>name = Some ''old''\<rparr>]" "''step''"]
  by auto

subsection \<open>The store\<close>

lemma init_eq:
  "FunctionBasedAction_init h f rs ws None = (h @ [fresh_action f ws\<lparr>reads := rs\<rparr>], length h)"
  by (simp add: FunctionBasedAction_init_def alloc_def fresh_action_def)

lemma with_params_eq:
  "with_params h a kw =
     (h @ [(h ! a)\<lparr>bound_params := bound_params (h ! a) ++ kw\<rparr>], length h)"
  by (simp add: with_params_def copy_def alloc_def)

lemma run_Inr:
  "body (fn (h ! a)) s (bound_params (h ! a)) = Inr (res, ns) \<Longrightarrow>
     FunctionBasedAction_run h a s = Inr (h[a := (h ! a)\<lparr>state_created := Some ns\<rparr>], res)"
  by (simp add: FunctionBasedAction_run_def)

lemma run_Inr_iff:
  "FunctionBasedAction_run h a s = Inr (h', res) \<longleftrightarrow>
     (\<exists>ns. body (fn (h ! a)) s (bound_params (h ! a)) = Inr (res, ns)
        \<and> h' = h[a := (h ! a)\<lparr>state_created := Some ns\<rparr>])"
  by (auto simp: FunctionBasedAction_run_def split: sum.splits)

lemma update_Some:
  "state_created (h ! a) = Some c \<Longrightarrow>
     FunctionBasedAction_update h a res s = Inr (h, State_subset c (writes (h ! a)))"
  by (simp add: FunctionBasedAction_update_def)

lemma update_None:
  "state_created (h ! a) = None \<Longrightarrow>
     FunctionBasedAction_update h a res s = Inl (ValueError RunBeforeUpdate)"
  by (simp add: FunctionBasedAction_update_def)

subsection \<open>Binding parameters\<close>

text \<open>
  C8. Two \<open>with_params\<close> in sequence give an instance whose bound parameters are those
  of the receiver, overridden by the first keywords, overridden by the second: on the
  keys of the second call its values win. Both calls allocate a new instance and leave
  every earlier one as it was, so the receiver keeps the bound parameters it had (none,
  when it had none).
\<close>

theorem with_params_twice:
  assumes "a < length h"
  shows "\<exists>h1 b h2 c.
      with_params h a kw1 = (h1, b) \<and> with_params h1 b kw2 = (h2, c)
    \<and> b \<noteq> a \<and> c \<noteq> a \<and> c \<noteq> b
    \<and> bound_params (h2 ! c) = (bound_params (h ! a) ++ kw1) ++ kw2
    \<and> (\<forall>k \<in> dom kw2. bound_params (h2 ! c) k = kw2 k)
    \<and> (\<forall>d < length h. h2 ! d = h ! d)
    \<and> bound_params (h2 ! a) = bound_params (h ! a)"
proof -
  let ?h1 = "h @ [(h ! a)\<lparr>bound_params := bound_params (h ! a) ++ kw1\<rparr>]"
  let ?b = "length h"
  let ?h2 = "?h1 @ [(?h1 ! ?b)\<lparr>bound_params := bound_params (?h1 ! ?b) ++ kw2\<rparr>]"
  have 1: "with_params h a kw1 = (?h1, ?b)"
    by (rule with_params_eq)
  have 2: "with_params ?h1 ?b kw2 = (?h2, Suc ?b)"
    using with_params_eq [of ?h1 ?b kw2] by simp
  have 3: "bound_params (?h2 ! Suc ?b) = (bound_params (h ! a) ++ kw1) ++ kw2"
    by (simp add: nth_append)
  have 4: "\<forall>d < length h. ?h2 ! d = h ! d"
    by (simp add: nth_append)
  have 5: "\<forall>k \<in> dom kw2. bound_params (?h2 ! Suc ?b) k = kw2 k"
    unfolding 3 by (auto simp: map_add_def)
  from assms 1 2 3 4 5 show ?thesis
    by (intro exI [of _ ?h1] exI [of _ ?b] exI [of _ ?h2] exI [of _ "Suc ?b"]) simp
qed

theorem with_params_twice_witness:
  "(0::nat) < length [fresh_action produce []]
   \<and> (\<exists>h1 b h2 c.
        with_params [fresh_action produce []] 0 [''x'' \<mapsto> VInt 1] = (h1, b)
      \<and> with_params h1 b [''x'' \<mapsto> VInt 2, ''y'' \<mapsto> VInt 3] = (h2, c)
      \<and> bound_params (h2 ! c) = [''x'' \<mapsto> VInt 2, ''y'' \<mapsto> VInt 3]
      \<and> bound_params (h2 ! 0) = Map.empty)"
proof -
  have "bound_params (fresh_action produce []) = Map.empty"
    by (simp add: fresh_action_def)
  then show ?thesis
    using with_params_twice [of 0 "[fresh_action produce []]" "[''x'' \<mapsto> VInt 1]"
        "[''x'' \<mapsto> VInt 2, ''y'' \<mapsto> VInt 3]"]
    by auto
qed

subsection \<open>The cached State\<close>

text \<open>
  C10. After a \<open>run\<close> that returned, \<open>update\<close> returns the State the function produced,
  limited to the declared writes, and returns the store as it was: the cached State is
  still there, and a second \<open>update\<close> (with any result and state arguments) returns the
  same State again.
\<close>

theorem update_twice:
  assumes "a < length h" and "FunctionBasedAction_run h a s = Inr (h1, res)"
  shows "\<exists>h2 st.
      FunctionBasedAction_update h1 a r1 s1 = Inr (h2, st)
    \<and> h2 = h1
    \<and> state_created (h2 ! a) \<noteq> None
    \<and> FunctionBasedAction_update h2 a r2 s2 = Inr (h2, st)"
proof -
  from assms(2) obtain ns where
    h1: "h1 = h[a := (h ! a)\<lparr>state_created := Some ns\<rparr>]"
    by (auto simp: run_Inr_iff)
  with assms(1) have c: "state_created (h1 ! a) = Some ns"
    by simp
  show ?thesis
    using update_Some [OF c] c by simp
qed

theorem update_twice_witness:
  "(0::nat) < length [fresh_action produce [''x'']]
   \<and> FunctionBasedAction_run [fresh_action produce [''x'']] 0 (State Map.empty)
       = Inr ([fresh_action produce [''x'']
                \<lparr>state_created := Some produced\<rparr>], Map.empty)
   \<and> (\<exists>h2 st.
        FunctionBasedAction_update
          [fresh_action produce [''x'']
            \<lparr>state_created := Some produced\<rparr>]
          0 Map.empty (State Map.empty) = Inr (h2, st)
      \<and> FunctionBasedAction_update h2 0 Map.empty (State Map.empty) = Inr (h2, st))"
proof -
  have r: "FunctionBasedAction_run [fresh_action produce [''x'']] 0 (State Map.empty)
       = Inr ([fresh_action produce [''x'']
                \<lparr>state_created := Some produced\<rparr>], Map.empty)"
    by (simp add: FunctionBasedAction_run_def fresh_action_def produce_def)
  have l: "(0::nat) < length [fresh_action produce [''x'']]"
    by simp
  from update_twice [OF l r, of Map.empty "State Map.empty" Map.empty "State Map.empty"] r
  show ?thesis
    by auto
qed

lemma run_produce:
  "FunctionBasedAction_run [fresh_action produce ws] 0 s
     = Inr ([fresh_action produce ws\<lparr>state_created := Some produced\<rparr>], Map.empty)"
  by (simp add: FunctionBasedAction_run_def fresh_action_def produce_def)

lemma subset_produced_x: "State_subset produced [''x''] = State [''x'' \<mapsto> VInt 1]"
  by (simp add: produced_def fun_eq_iff restrict_map_def)

text \<open>
  C5, as stated, fails on a copy. \<open>run\<close> on the instance at 0 caches the produced State;
  \<open>with_name\<close> copies the instance, cache included, to 1; \<open>update\<close> on the instance at 1,
  on which \<open>run\<close> was never called, returns.
\<close>

theorem update_on_copy_counterexample:
  "FunctionBasedAction_run [fresh_action produce [''x'']] 0 (State Map.empty)
     = Inr ([fresh_action produce [''x'']\<lparr>state_created := Some produced\<rparr>], Map.empty)
   \<and> with_name [fresh_action produce [''x'']\<lparr>state_created := Some produced\<rparr>] 0 ''step''
     = Inr ([fresh_action produce [''x'']\<lparr>state_created := Some produced\<rparr>,
             fresh_action produce [''x'']\<lparr>state_created := Some produced, name := Some ''step''\<rparr>], 1)
   \<and> FunctionBasedAction_update
        [fresh_action produce [''x'']\<lparr>state_created := Some produced\<rparr>,
         fresh_action produce [''x'']\<lparr>state_created := Some produced, name := Some ''step''\<rparr>]
        1 Map.empty (State Map.empty)
     = Inr ([fresh_action produce [''x'']\<lparr>state_created := Some produced\<rparr>,
             fresh_action produce [''x'']\<lparr>state_created := Some produced, name := Some ''step''\<rparr>],
            State [''x'' \<mapsto> VInt 1])"
proof (intro conjI)
  show "FunctionBasedAction_run [fresh_action produce [''x'']] 0 (State Map.empty)
     = Inr ([fresh_action produce [''x'']\<lparr>state_created := Some produced\<rparr>], Map.empty)"
    by (rule run_produce)
  show "with_name [fresh_action produce [''x'']\<lparr>state_created := Some produced\<rparr>] 0 ''step''
     = Inr ([fresh_action produce [''x'']\<lparr>state_created := Some produced\<rparr>,
             fresh_action produce [''x'']\<lparr>state_created := Some produced, name := Some ''step''\<rparr>], 1)"
    by (simp add: with_name_def copy_def alloc_def fresh_action_def)
  show "FunctionBasedAction_update
        [fresh_action produce [''x'']\<lparr>state_created := Some produced\<rparr>,
         fresh_action produce [''x'']\<lparr>state_created := Some produced, name := Some ''step''\<rparr>]
        1 Map.empty (State Map.empty)
     = Inr ([fresh_action produce [''x'']\<lparr>state_created := Some produced\<rparr>,
             fresh_action produce [''x'']\<lparr>state_created := Some produced, name := Some ''step''\<rparr>],
            State [''x'' \<mapsto> VInt 1])"
    by (simp add: FunctionBasedAction_update_def fresh_action_def subset_produced_x)
qed

lemma cache_inv_step: "cache_inv hc \<Longrightarrow> cache_inv (step hc c)"
proof (cases hc)
  case (Pair h C)
  assume "cache_inv hc"
  with Pair have i: "\<forall>a < length h. (state_created (h ! a) \<noteq> None) = (a \<in> C)"
    and b: "\<forall>a \<in> C. a < length h"
    by (auto simp: cache_inv_def)
  show ?thesis
  proof (cases c)
    case (Construct f rs ws bp)
    with Pair i b show ?thesis
      by (auto simp: cache_inv_def step_def FunctionBasedAction_init_def alloc_def nth_append
          less_Suc_eq)
  next
    case (Run a s)
    with Pair i b show ?thesis
      by (auto simp: cache_inv_def step_def FunctionBasedAction_run_def nth_list_update
          split: sum.splits)
  next
    case (Update a r s)
    with Pair i b show ?thesis
      by (auto simp: cache_inv_def step_def FunctionBasedAction_update_def split: option.splits)
  next
    case (WithName a n)
    with Pair i b show ?thesis
      by (auto simp: cache_inv_def step_def with_name_def copy_def alloc_def nth_append
          less_Suc_eq)
  next
    case (WithParams a kw)
    with Pair i b show ?thesis
      by (auto simp: cache_inv_def step_def with_params_eq nth_append less_Suc_eq)
  qed
qed

lemma cache_inv_foldl: "cache_inv hc \<Longrightarrow> cache_inv (foldl step hc cs)"
  by (induction cs arbitrary: hc) (auto simp: cache_inv_step)

lemma cache_inv_history: "cache_inv (history cs)"
  unfolding history_def by (rule cache_inv_foldl) (simp add: cache_inv_def)

lemma length_perform: "length h \<le> length (perform h c)"
  by (cases c)
    (auto simp: FunctionBasedAction_init_def alloc_def FunctionBasedAction_run_def
      FunctionBasedAction_update_def with_name_def copy_def with_params_eq
      split: sum.splits option.splits)

lemma stays_out_step:
  assumes "\<forall>b \<in> C. b < length h" and "a < length h" and "a \<notin> C" and "\<forall>s. c \<noteq> Run a s"
  shows "a \<notin> holders h C c"
  using assms
  by (cases c) (auto simp: with_name_def copy_def alloc_def with_params_eq split: sum.splits)

lemma bounded_step:
  assumes "\<forall>b \<in> C. b < length h"
  shows "\<forall>b \<in> holders h C c. b < length (perform h c)"
  using assms
  by (cases c)
    (auto simp: FunctionBasedAction_init_def alloc_def FunctionBasedAction_run_def
      FunctionBasedAction_update_def with_name_def copy_def with_params_eq
      split: sum.splits option.splits)

lemma stays_out:
  assumes "\<forall>b \<in> C. b < length h" and "a < length h" and "a \<notin> C" and "\<forall>s. Run a s \<notin> set cs"
  shows "a \<notin> snd (foldl step (h, C) cs)"
  using assms
proof (induction cs arbitrary: h C)
  case Nil
  then show ?case by simp
next
  case (Cons c cs)
  have 1: "\<forall>b \<in> holders h C c. b < length (perform h c)"
    using Cons.prems(1) by (rule bounded_step)
  have 2: "a < length (perform h c)"
    using Cons.prems(2) length_perform [of h c] by simp
  have 3: "a \<notin> holders h C c"
    using Cons.prems by (intro stays_out_step) auto
  have 4: "\<forall>s. Run a s \<notin> set cs"
    using Cons.prems(4) by auto
  from Cons.IH [OF 1 2 3 4] show ?case
    by (simp add: step_def)
qed

lemma history_append: "history (cs @ cs') = foldl step (history cs) cs'"
  by (simp add: history_def)

lemma fresh_stays_out:
  assumes "a = length (fst (history cs1))" and "\<forall>s. Run a s \<notin> set cs2"
  shows "a \<notin> snd (history (cs1 @ Construct f rs ws bp # cs2))"
proof -
  obtain h C where hc: "history cs1 = (h, C)" by (cases "history cs1")
  have inv: "cache_inv (h, C)"
    using cache_inv_history [of cs1] hc by simp
  then have b: "\<forall>b \<in> C. b < length h"
    by (simp add: cache_inv_def)
  let ?h = "perform h (Construct f rs ws bp)"
  have l: "length ?h = Suc (length h)"
    by (simp add: FunctionBasedAction_init_def alloc_def)
  have a: "a = length h" using assms(1) hc by simp
  have 1: "\<forall>b \<in> C. b < length ?h" using b l by auto
  have 2: "a < length ?h" using a l by simp
  have 3: "a \<notin> C" using a b by auto
  have "history (cs1 @ Construct f rs ws bp # cs2) = foldl step (?h, C) cs2"
    by (simp add: history_append hc step_def)
  with stays_out [OF 1 2 3 assms(2)] show ?thesis by simp
qed

text \<open>
  C5, amended. After any sequence of constructor, \<open>run\<close>, \<open>update\<close>, \<open>with_name\<close> and
  \<open>with_params\<close> calls, \<open>update\<close> on an instance returns exactly when the instance is
  among the holders of the history: a \<open>run\<close> on that instance has returned, or the
  instance was made by \<open>with_name\<close> or \<open>with_params\<close> as the copy of a holder. On every
  other instance it raises the \<^verbatim>\<open>ValueError\<close> of \<^verbatim>\<open>run must be called before
  update\<close>; such is an instance made by the constructor as long as no \<open>run\<close> has been
  called on it, whatever was called on it and on the other instances in between.
\<close>

theorem update_needs_cached_state:
  assumes "history cs = (h, C)" and "a < length h"
  shows "((\<exists>x. FunctionBasedAction_update h a res s = Inr x) \<longleftrightarrow> a \<in> C)
    \<and> (a \<notin> C \<longrightarrow> FunctionBasedAction_update h a res s = Inl (ValueError RunBeforeUpdate))
    \<and> (\<forall>cs1 f rs ws bp cs2.
          cs = cs1 @ Construct f rs ws bp # cs2 \<and> a = length (fst (history cs1))
            \<and> (\<forall>s'. Run a s' \<notin> set cs2)
          \<longrightarrow> FunctionBasedAction_update h a res s = Inl (ValueError RunBeforeUpdate))"
proof -
  have "cache_inv (h, C)"
    using cache_inv_history [of cs] assms(1) by simp
  with assms(2) have c: "(state_created (h ! a) \<noteq> None) = (a \<in> C)"
    by (simp add: cache_inv_def)
  have 1: "(\<exists>x. FunctionBasedAction_update h a res s = Inr x) \<longleftrightarrow> a \<in> C"
    unfolding c [symmetric]
    by (auto simp: FunctionBasedAction_update_def split: option.splits)
  have 2: "a \<notin> C \<longrightarrow> FunctionBasedAction_update h a res s = Inl (ValueError RunBeforeUpdate)"
    using c by (auto simp: FunctionBasedAction_update_def split: option.splits)
  have 3: "\<forall>cs1 f rs ws bp cs2.
          cs = cs1 @ Construct f rs ws bp # cs2 \<and> a = length (fst (history cs1))
            \<and> (\<forall>s'. Run a s' \<notin> set cs2)
          \<longrightarrow> FunctionBasedAction_update h a res s = Inl (ValueError RunBeforeUpdate)"
  proof (intro allI impI)
    fix cs1 f rs ws bp cs2
    assume p: "cs = cs1 @ Construct f rs ws bp # cs2 \<and> a = length (fst (history cs1))
            \<and> (\<forall>s'. Run a s' \<notin> set cs2)"
    then have "a \<notin> snd (history (cs1 @ Construct f rs ws bp # cs2))"
      by (intro fresh_stays_out) auto
    with p assms(1) have "a \<notin> C"
      by simp
    with 2 show "FunctionBasedAction_update h a res s = Inl (ValueError RunBeforeUpdate)"
      by simp
  qed
  from 1 2 3 show ?thesis
    by blast
qed

theorem update_needs_cached_state_witness:
  "history [Construct produce [] [''x''] None, Run 0 (State Map.empty), WithName 0 ''step'',
            Construct produce [] [''x''] None]
     = ([fresh_action produce [''x'']\<lparr>state_created := Some produced\<rparr>,
         fresh_action produce [''x'']\<lparr>state_created := Some produced, name := Some ''step''\<rparr>,
         fresh_action produce [''x'']],
        {0, 1})
   \<and> FunctionBasedAction_update
        [fresh_action produce [''x'']\<lparr>state_created := Some produced\<rparr>,
         fresh_action produce [''x'']\<lparr>state_created := Some produced, name := Some ''step''\<rparr>,
         fresh_action produce [''x'']]
        2 Map.empty (State Map.empty)
       = Inl (ValueError RunBeforeUpdate)
   \<and> (\<exists>x. FunctionBasedAction_update
        [fresh_action produce [''x'']\<lparr>state_created := Some produced\<rparr>,
         fresh_action produce [''x'']\<lparr>state_created := Some produced, name := Some ''step''\<rparr>,
         fresh_action produce [''x'']]
        1 Map.empty (State Map.empty) = Inr x)"
proof -
  let ?h = "[fresh_action produce [''x'']\<lparr>state_created := Some produced\<rparr>,
         fresh_action produce [''x'']\<lparr>state_created := Some produced, name := Some ''step''\<rparr>,
         fresh_action produce [''x'']]"
  have hist: "history [Construct produce [] [''x''] None, Run 0 (State Map.empty),
            WithName 0 ''step'', Construct produce [] [''x''] None] = (?h, {0, 1})"
    by (auto simp: history_def step_def FunctionBasedAction_init_def alloc_def
        FunctionBasedAction_run_def produce_def with_name_def copy_def fresh_action_def)
  have l2: "2 < length ?h" and l1: "1 < length ?h"
    by simp_all
  have "FunctionBasedAction_update ?h 2 Map.empty (State Map.empty)
      = Inl (ValueError RunBeforeUpdate)"
    using update_needs_cached_state [OF hist l2, of Map.empty "State Map.empty"] by simp
  moreover have "\<exists>x. FunctionBasedAction_update ?h 1 Map.empty (State Map.empty) = Inr x"
    using update_needs_cached_state [OF hist l1, of Map.empty "State Map.empty"] by simp
  ultimately show ?thesis
    using hist by simp
qed

subsection \<open>What \<open>update\<close> returns\<close>

lemma get_all_subset:
  "State_get_all (State_subset c ws) = State_get_all c |` set ws"
  by (cases c) simp

lemma update_keys:
  assumes "state_created (h ! a) = Some c"
  shows "\<exists>st. FunctionBasedAction_update h a res s = Inr (h, st)
    \<and> dom (State_get_all st) = set (writes (h ! a)) \<inter> dom (State_get_all c)
    \<and> (\<forall>k \<in> dom (State_get_all st). State_get_all st k = State_get_all c k)"
  using update_Some [OF assms] by (auto simp: get_all_subset)

text \<open>
  C3 at an input where the produced State lacks a declared write key: the declared
  writes are \<^verbatim>\<open>x\<close> and \<^verbatim>\<open>z\<close>, the function produces \<^verbatim>\<open>x\<close> and \<^verbatim>\<open>y\<close>, and
  \<open>update\<close> returns a State whose only key is \<^verbatim>\<open>x\<close>.
\<close>

theorem update_omits_missing_write_key:
  "FunctionBasedAction_run [fresh_action produce [''x'', ''z'']] 0 (State Map.empty)
     = Inr ([fresh_action produce [''x'', ''z'']\<lparr>state_created := Some produced\<rparr>], Map.empty)
   \<and> FunctionBasedAction_update
        [fresh_action produce [''x'', ''z'']\<lparr>state_created := Some produced\<rparr>] 0 Map.empty
        (State Map.empty)
     = Inr ([fresh_action produce [''x'', ''z'']\<lparr>state_created := Some produced\<rparr>],
            State [''x'' \<mapsto> VInt 1])
   \<and> dom (State_get_all (State [''x'' \<mapsto> VInt 1])) = {''x''}
   \<and> set (writes (fresh_action produce [''x'', ''z''])) = {''x'', ''z''}"
proof -
  have "State_subset produced [''x'', ''z''] = State [''x'' \<mapsto> VInt 1]"
    by (auto simp: produced_def fun_eq_iff restrict_map_def)
  moreover have "state_created (fresh_action produce [''x'', ''z'']\<lparr>state_created := Some produced\<rparr>)
      = Some produced"
    and "writes (fresh_action produce [''x'', ''z'']\<lparr>state_created := Some produced\<rparr>) = [''x'', ''z'']"
    and "writes (fresh_action produce [''x'', ''z'']) = [''x'', ''z'']"
    by (simp_all add: fresh_action_def)
  ultimately show ?thesis
    by (simp add: run_produce FunctionBasedAction_update_def)
qed

subsection \<open>Construction and the signature check\<close>

text \<open>
  C2 at a function with a variadic parameter: \<open>validate_action_function\<close> raises on it,
  and the constructor, which never calls \<open>validate_action_function\<close>, builds the action.
\<close>

theorem invalid_function_is_constructed:
  "validate_action_function variadic = Inl (ValueError InvalidParameterKind)
   \<and> FunctionBasedAction_init [] variadic [] [] None = ([fresh_action variadic []], 0)
   \<and> fn (fresh_action variadic []) = variadic"
  by (simp add: validate_action_function_def variadic_def FunctionBasedAction_init_def
      alloc_def fresh_action_def)

theorem invalid_function_is_constructed_witness:
  "validate_action_function variadic = Inl (ValueError InvalidParameterKind)
   \<and> fst (FunctionBasedAction_init [] variadic [] [] None) ! 0 = fresh_action variadic []"
  using invalid_function_is_constructed by simp

subsection \<open>Conditions built by \<open>when\<close>\<close>

lemma when_condition_func_iff:
  "when_condition_func kw s \<longleftrightarrow> (\<forall>(k, v) \<in> set kw. py_eq (State_get s k) v)"
  by (induction kw s rule: when_condition_func.induct) (auto simp: py_ne_def)

lemma filter_same_key:
  "distinct (map f xs) \<Longrightarrow> k \<in> set xs \<Longrightarrow> filter (\<lambda>x. f k = f x) xs = [k]"
proof (induction xs)
  case Nil
  then show ?case by simp
next
  case (Cons x xs)
  show ?case
  proof (cases "k = x")
    case True
    have "filter (\<lambda>y. f x = f y) xs = []"
      using Cons.prems(1) by (auto simp: filter_empty_conv)
    with True show ?thesis by simp
  next
    case False
    with Cons.prems have k: "k \<in> set xs" and d: "distinct (map f xs)" and n: "f x \<notin> f ` set xs"
      by auto
    from k n have "f k \<noteq> f x" by (metis imageI)
    with Cons.IH [OF d k] show ?thesis by simp
  qed
qed

lemma sort_key_permutation:
  assumes "distinct (map f xs)" and "mset ys = mset xs"
  shows "sort_key f ys = sort_key f xs"
proof (rule properties_for_sort_key)
  show "mset (sort_key f xs) = mset ys"
    using assms(2) by simp
  show "sorted (map f (sort_key f xs))"
    by simp
  fix k assume "k \<in> set (sort_key f xs)"
  then have kx: "k \<in> set xs" by simp
  then have ky: "k \<in> set ys"
    using assms(2) by (metis set_mset_mset)
  have dy: "distinct (map f ys)"
    using assms by (metis mset_map mset_eq_imp_distinct_iff)
  have ds: "distinct (map f (sort_key f xs))"
    using assms(1) by (metis distinct_map distinct_sort set_sort)
  show "filter (\<lambda>x. f k = f x) (sort_key f xs) = filter (\<lambda>x. f k = f x) ys"
    using filter_same_key [OF dy ky] filter_same_key [OF ds \<open>k \<in> set (sort_key f xs)\<close>]
    by simp
qed

text \<open>
  C6. For the keyword arguments \<open>kw\<close> of \<open>when\<close>: the reads of the condition are the
  keys, in the order given; \<open>run\<close> returns \<^verbatim>\<open>{"PROCEED": b}\<close> where \<open>b\<close> is true
  exactly when \<^verbatim>\<open>state.get(k) == v\<close> for every pair; the name is the texts
  \<^verbatim>\<open>k=v\<close> of the pairs sorted by key, joined by a comma and a space, so that (the keys
  of a dict being distinct) it does not depend on the order in which the keywords were
  written.
\<close>

theorem when_condition:
  "Condition_reads (Condition_when kw) = map fst kw
   \<and> Condition_run (Condition_when kw) s
       = Returns [''PROCEED'' \<mapsto> VBool (\<forall>(k, v) \<in> set kw. py_eq (State_get s k) v)]
   \<and> cname (Condition_when kw)
       = Some (join '', '' (map (\<lambda>(k, v). k @ ''='' @ py_str v) (sort_key fst kw)))
   \<and> sorted (map fst (sort_key fst kw)) \<and> mset (sort_key fst kw) = mset kw
   \<and> (\<forall>kw'. distinct (map fst kw) \<and> mset kw' = mset kw \<longrightarrow>
         cname (Condition_when kw') = cname (Condition_when kw))"
proof (intro conjI allI impI)
  show "Condition_reads (Condition_when kw) = map fst kw"
    by (simp add: Condition_reads_def Condition_when_def)
  show "Condition_run (Condition_when kw) s
       = Returns [''PROCEED'' \<mapsto> VBool (\<forall>(k, v) \<in> set kw. py_eq (State_get s k) v)]"
    by (simp add: Condition_run_def Condition_when_def KEY_def when_condition_func_iff)
  show "cname (Condition_when kw)
       = Some (join '', '' (map (\<lambda>(k, v). k @ ''='' @ py_str v) (sort_key fst kw)))"
    by (simp add: Condition_when_def when_name_def)
  show "sorted (map fst (sort_key fst kw))"
    by simp
  show "mset (sort_key fst kw) = mset kw"
    by simp
  fix kw' :: "(string \<times> pyval) list"
  assume "distinct (map fst kw) \<and> mset kw' = mset kw"
  then have "sort_key fst kw' = sort_key fst kw"
    by (simp add: sort_key_permutation)
  then show "cname (Condition_when kw') = cname (Condition_when kw)"
    by (simp add: Condition_when_def when_name_def)
qed

theorem when_condition_witness:
  "Condition_reads (Condition_when [(''b'', VInt 2), (''a'', VInt 1)]) = [''b'', ''a'']
   \<and> Condition_run (Condition_when [(''b'', VInt 2), (''a'', VInt 1)])
        (State [''a'' \<mapsto> VInt 1, ''b'' \<mapsto> VInt 2, ''c'' \<mapsto> VInt 9])
       = Returns [''PROCEED'' \<mapsto> VBool True]
   \<and> Condition_run (Condition_when [(''b'', VInt 2), (''a'', VInt 1)])
        (State [''a'' \<mapsto> VInt 1, ''b'' \<mapsto> VInt 3])
       = Returns [''PROCEED'' \<mapsto> VBool False]
   \<and> cname (Condition_when [(''b'', VInt 2), (''a'', VInt 1)]) = Some ''a=1, b=2''
   \<and> cname (Condition_when [(''a'', VInt 1), (''b'', VInt 2)])
       = cname (Condition_when [(''b'', VInt 2), (''a'', VInt 1)])"
proof -
  have p: "mset [(''a'', VInt 1), (''b'', VInt 2)] = mset [(''b'', VInt 2), (''a'', VInt (1::int))]"
    by (simp add: add_mset_commute)
  show ?thesis
    using p
      when_condition [of "[(''b'', VInt 2), (''a'', VInt 1)]"
        "State [''a'' \<mapsto> VInt 1, ''b'' \<mapsto> VInt 2, ''c'' \<mapsto> VInt 9]"]
      when_condition [of "[(''b'', VInt 2), (''a'', VInt 1)]"
        "State [''a'' \<mapsto> VInt 1, ''b'' \<mapsto> VInt 3]"]
    by (simp add: str_int_def str_nat.simps)
qed

subsection \<open>The reads of a condition built by \<open>expr\<close>\<close>

lemma fold_visit_set:
  assumes "\<And>e acc. e \<in> set ts \<Longrightarrow> set (visit e acc) = name_nodes e \<union> set acc"
  shows "set (fold visit ts acc) = (\<Union>e \<in> set ts. name_nodes e) \<union> set acc"
  using assms by (induction ts arbitrary: acc) auto

lemma set_visit: "set (visit t acc) = name_nodes t \<union> set acc"
proof (induction t acc rule: visit.induct)
  case (3 op vals names)
  then show ?case by (simp add: fold_visit_set)
next
  case (7 left rest names)
  have "set (fold visit (map snd rest) (visit left names))
      = (\<Union>e \<in> set (map snd rest). name_nodes e) \<union> set (visit left names)"
    by (rule fold_visit_set) (simp add: 7)
  with 7 show ?case by auto
next
  case (9 func args names)
  then show ?case by (simp add: fold_visit_set) blast
next
  case (13 elt target iter ifs names)
  then show ?case by (simp add: fold_visit_set) blast
next
  case (14 elt target iter ifs names)
  then show ?case by (simp add: fold_visit_set) blast
next
  case (15 key val target iter ifs names)
  then show ?case by (simp add: fold_visit_set) blast
next
  case (16 elt target iter ifs names)
  then show ?case by (simp add: fold_visit_set) blast
qed auto

lemma fold_visit_distinct:
  assumes "\<And>e acc. e \<in> set ts \<Longrightarrow> distinct acc \<Longrightarrow> distinct (visit e acc)"
  shows "distinct acc \<Longrightarrow> distinct (fold visit ts acc)"
  using assms by (induction ts arbitrary: acc) auto

lemma distinct_visit: "distinct acc \<Longrightarrow> distinct (visit t acc)"
proof (induction t acc rule: visit.induct)
  case (3 op vals names)
  then show ?case by (simp add: fold_visit_distinct)
next
  case (7 left rest names)
  show ?case
    unfolding visit.simps
    by (rule fold_visit_distinct) (simp_all add: 7)
next
  case (9 func args names)
  show ?case
    unfolding visit.simps
    by (rule fold_visit_distinct) (simp_all add: 9)
next
  case (13 elt target iter ifs names)
  show ?case
    unfolding visit.simps
    by (rule fold_visit_distinct) (simp_all add: 13)
next
  case (14 elt target iter ifs names)
  show ?case
    unfolding visit.simps
    by (rule fold_visit_distinct) (simp_all add: 14)
next
  case (15 key val target iter ifs names)
  show ?case
    unfolding visit.simps
    by (rule fold_visit_distinct) (simp_all add: 15)
next
  case (16 elt target iter ifs names)
  show ?case
    unfolding visit.simps
    by (rule fold_visit_distinct) (simp_all add: 16)
qed auto

lemma sandboxed_names: "sandboxed t \<Longrightarrow> free_identifiers t = name_nodes t"
proof (induction t rule: sandboxed.induct)
  case (3 op vals)
  then show ?case by (auto simp: list_all_iff)
next
  case (6 left rest)
  have "free_identifiers e = name_nodes e" if "e \<in> snd ` set rest" for e
  proof -
    from that obtain op where m: "(op, e) \<in> set rest" by auto
    with 6(3) have "sandboxed e" by (auto simp: list_all_iff)
    with m show ?thesis by (rule 6(2) [OF _ refl])
  qed
  moreover have "free_identifiers left = name_nodes left"
    using 6 by simp
  ultimately show ?case by simp
qed auto

text \<open>
  The assignment expression of \<^verbatim>\<open>(y := a) == 1\<close> has neither lambda nor
  comprehension; the visitor collects its target \<^verbatim>\<open>y\<close> along with \<^verbatim>\<open>a\<close>.
\<close>

lemma reads_of_assignment_expression:
  "map_sum id (\<lambda>c. set (Condition_reads c))
       (Condition_expr ''(y := a) == 1'' (Inr assignment_tree))
     = Inr {''a'', ''y''}
   \<and> free_identifiers assignment_tree = {''a''}"
  by (auto simp: Condition_expr_def Condition_reads_def assignment_tree_def)

text \<open>
  C7, as stated, fails on a tree with a binder. For \<^verbatim>\<open>[x for x in xs]\<close> the visitor
  collects \<^verbatim>\<open>x\<close>, the variable of the comprehension, along with \<^verbatim>\<open>xs\<close>; the only
  free identifier of the expression is \<^verbatim>\<open>xs\<close>.
\<close>

theorem reads_of_comprehension_counterexample:
  "map_sum id (\<lambda>c. set (Condition_reads c))
       (Condition_expr ''[x for x in xs]'' (Inr comprehension_tree))
     = Inr {''x'', ''xs''}
   \<and> free_identifiers comprehension_tree = {''xs''}
   \<and> map_sum id (\<lambda>c. set (Condition_reads c))
       (Condition_expr ''[x for x in xs]'' (Inr comprehension_tree))
     \<noteq> Inr (free_identifiers comprehension_tree)"
  by (auto simp: Condition_expr_def Condition_reads_def comprehension_tree_def)

text \<open>
  C7, amended. For every text that parses, the reads of the condition are the identifiers
  of all \<^verbatim>\<open>Name\<close> nodes of the tree, each once, whatever the order in which the tree
  holds them: two trees with the same identifiers give the same set. On a tree made only
  of identifiers, literals and the comparison, boolean and arithmetic operators of the
  specification's grammar, these are the free identifiers of the expression.
\<close>

theorem expr_reads:
  assumes "Condition_expr text (Inr tree) = Inr c"
  shows "set (Condition_reads c) = name_nodes tree
    \<and> distinct (Condition_reads c)
    \<and> (sandboxed tree \<longrightarrow> set (Condition_reads c) = free_identifiers tree)
    \<and> (\<forall>text' tree' c'. Condition_expr text' (Inr tree') = Inr c' \<and> name_nodes tree' = name_nodes tree
          \<longrightarrow> set (Condition_reads c') = set (Condition_reads c))"
proof -
  have k: "\<And>t x d. Condition_expr t (Inr x) = Inr d \<Longrightarrow> Condition_reads d = visit x []"
    by (auto simp: Condition_expr_def Condition_reads_def)
  have "Condition_reads c = visit tree []"
    using assms by (rule k)
  then show ?thesis
    using k by (auto simp: set_visit distinct_visit sandboxed_names)
qed

theorem expr_reads_witness:
  "Condition_expr ''a == b and c > 3'' (Inr conjunction_tree)
     = Inr \<lparr>resolver = (\<lambda>s. py_eval conjunction_tree (State_get_all s)),
            keys = visit conjunction_tree [], cname = Some ''a == b and c > 3''\<rparr>
   \<and> sandboxed conjunction_tree
   \<and> set (visit conjunction_tree []) = {''a'', ''b'', ''c''}
   \<and> distinct (visit conjunction_tree [])
   \<and> free_identifiers conjunction_tree = {''a'', ''b'', ''c''}"
proof -
  have e: "Condition_expr ''a == b and c > 3'' (Inr conjunction_tree)
     = Inr \<lparr>resolver = (\<lambda>s. py_eval conjunction_tree (State_get_all s)),
            keys = visit conjunction_tree [], cname = Some ''a == b and c > 3''\<rparr>"
    by (simp add: Condition_expr_def)
  have b: "sandboxed conjunction_tree"
    by (simp add: conjunction_tree_def)
  have n: "name_nodes conjunction_tree = {''a'', ''b'', ''c''}"
    by (auto simp: conjunction_tree_def)
  have r: "Condition_reads \<lparr>resolver = (\<lambda>s. py_eval conjunction_tree (State_get_all s)),
            keys = visit conjunction_tree [], cname = Some ''a == b and c > 3''\<rparr>
      = visit conjunction_tree []"
    by (simp add: Condition_reads_def)
  from expr_reads [OF e] have
    "set (visit conjunction_tree []) = name_nodes conjunction_tree"
    "distinct (visit conjunction_tree [])"
    "sandboxed conjunction_tree \<longrightarrow> set (visit conjunction_tree []) = free_identifiers conjunction_tree"
    unfolding r by blast+
  with b n e show ?thesis
    by simp
qed

subsection \<open>What \<open>expr\<close> accepts and how it evaluates\<close>








subsection \<open>The factory\<close>

lemma create_action_ActionObj: "create_action h (ActionObj a) n = with_name h a n"
  by (simp add: create_action_def)

lemma create_action_marked: "create_action h (FunctionObj f (Some a)) n = with_name h a n"
  by (simp add: create_action_def)

text \<open>
  C9, as stated, fails on an instance of Action that has a name: the factory hands it to
  \<open>with_name\<close>, which raises.
\<close>

theorem create_action_named_counterexample:
  "create_action [fresh_action produce []\<lparr>name := Some ''old''\<rparr>] (ActionObj 0) ''new''
     = Inl (ValueError NameAlreadySet)"
  by (simp add: create_action_def with_name_def fresh_action_def)

text \<open>
  C9, amended. On an object that is neither an instance of Action nor a function with an
  \<^verbatim>\<open>action_function\<close> attribute, the factory raises the \<^verbatim>\<open>ValueError\<close> of an invalid
  action. On an instance of Action, or on a function whose attribute holds one, it returns
  a copy named as asked when that action has no name, and raises the \<^verbatim>\<open>ValueError\<close> of
  a name already set when it has one. A function just decorated by \<open>action\<close> holds an
  unnamed action, so the factory succeeds on it.
\<close>

theorem create_action_cases:
  fixes h :: store
  assumes "a < length h"
  shows "create_action h OtherObj n = Inl (ValueError NotAValidAction)
    \<and> create_action h (FunctionObj f None) n = Inl (ValueError NotAValidAction)
    \<and> (\<forall>obj \<in> {ActionObj a, FunctionObj f (Some a)}.
          (name (h ! a) = None \<longrightarrow>
             (\<exists>h' b. create_action h obj n = Inr (h', b) \<and> name (h' ! b) = Some n
                \<and> (\<forall>c < length h. h' ! c = h ! c)))
        \<and> (name (h ! a) \<noteq> None \<longrightarrow> create_action h obj n = Inl (ValueError NameAlreadySet)))
    \<and> (\<exists>h1 obj h' b. action h rs ws f = (h1, obj)
          \<and> create_action h1 obj n = Inr (h', b) \<and> name (h' ! b) = Some n)"
proof (intro conjI ballI)
  show "create_action h OtherObj n = Inl (ValueError NotAValidAction)"
    by (simp add: create_action_def)
  show "create_action h (FunctionObj f None) n = Inl (ValueError NotAValidAction)"
    by (simp add: create_action_def)
next
  fix obj assume "obj \<in> {ActionObj a, FunctionObj f (Some a)}"
  then have c: "create_action h obj n = with_name h a n"
    by (auto simp: create_action_def)
  show "name (h ! a) = None \<longrightarrow>
      (\<exists>h' b. create_action h obj n = Inr (h', b) \<and> name (h' ! b) = Some n
         \<and> (\<forall>c < length h. h' ! c = h ! c))"
    unfolding c by (auto simp: with_name_unnamed nth_append)
  show "name (h ! a) \<noteq> None \<longrightarrow> create_action h obj n = Inl (ValueError NameAlreadySet)"
    unfolding c by (simp add: with_name_named)
next
  let ?new = "fresh_action f ws\<lparr>reads := rs\<rparr>"
  let ?h1 = "h @ [?new]"
  have 1: "action h rs ws f = (?h1, FunctionObj f (Some (length h)))"
    by (simp add: action_def init_eq)
  have u: "name (?h1 ! length h) = None"
    by (simp add: fresh_action_def)
  have 2: "create_action ?h1 (FunctionObj f (Some (length h))) n
      = Inr (?h1 @ [(?h1 ! length h)\<lparr>name := Some n\<rparr>], length ?h1)"
    unfolding create_action_marked using u by (rule with_name_unnamed)
  have 3: "name ((?h1 @ [(?h1 ! length h)\<lparr>name := Some n\<rparr>]) ! length ?h1) = Some n"
    by (simp add: nth_append)
  from 1 2 3 show "\<exists>h1 obj h' b. action h rs ws f = (h1, obj)
          \<and> create_action h1 obj n = Inr (h', b) \<and> name (h' ! b) = Some n"
    by blast
qed

theorem create_action_cases_witness:
  "(0::nat) < length [fresh_action produce []]
   \<and> create_action [fresh_action produce []] OtherObj ''step'' = Inl (ValueError NotAValidAction)
   \<and> create_action [fresh_action produce []] (FunctionObj produce None) ''step''
       = Inl (ValueError NotAValidAction)
   \<and> (\<exists>h' b. create_action [fresh_action produce []] (ActionObj 0) ''step'' = Inr (h', b)
         \<and> name (h' ! b) = Some ''step'')
   \<and> (\<exists>h' b. create_action [fresh_action produce []] (FunctionObj produce (Some 0)) ''step''
         = Inr (h', b) \<and> name (h' ! b) = Some ''step'')"
proof -
  have n: "name (fresh_action produce []) = None"
    by (simp add: fresh_action_def)
  show ?thesis
    using n create_action_cases [where a = 0 and h = "[fresh_action produce []]"
        and n = "''step''" and f = produce and rs = "[]" and ws = "[]"]
    by simp blast
qed

end
